theory Spec2Isabelle
  imports Complex_Main
begin

section \<open>Data model\<close>

text \<open>
  The validation agent of the travel planner (\<^verbatim>\<open>validation_agent.py\<close>) reads plans built by
  the planner (\<^verbatim>\<open>planner_agent.py\<close>) and returns one \<^verbatim>\<open>ValidationResult\<close> per plan.

  Conventions of the embedding:
  \<^item> Python floats (costs, durations, the budget, the score) are exact rationals; every
    threshold comparison of the source is the same comparison on \<open>rat\<close>.
  \<^item> A raised exception is a value \<open>Inl e\<close> of \<open>py_error + 'a\<close>; a method that cannot raise
    on well-typed arguments returns its value directly.
  \<^item> An f-string is kept as the list of its pieces: literal text and formatted values with
    their format specification, so that no digit of a float has to be printed.
  \<^item> A dictionary with values of mixed type is an association list of \<open>pyval\<close>.
  \<^item> \<^verbatim>\<open>print\<close> calls are dropped: they only write to standard output.
  \<^item> Python method names lose their leading underscore; a field name shared by two
    dataclasses gets a prefix in all but one of them (\<open>day_theme\<close>, \<open>day_total_cost\<close>,
    \<open>issue_category\<close>, \<open>issue_day_number\<close>, \<open>result_plan_id\<close>); \<open>notes\<close>,
    a keyword of Isabelle, is \<open>day_notes\<close>.
\<close>

datatype py_error = ZeroDivisionError | ValueError | OverflowError

datatype pyval = PNone | PStr string | PNum rat

text \<open>Truthiness of a value, as \<^verbatim>\<open>not v\<close> tests it.\<close>

fun truthy :: "pyval \<Rightarrow> bool" where
  "truthy PNone = False"
| "truthy (PStr s) = (s \<noteq> [])"
| "truthy (PNum x) = (x \<noteq> 0)"

datatype fpart =
    Lit string      \<comment> \<open>literal text, or an interpolated string\<close>
  | IntV int        \<comment> \<open>\<^verbatim>\<open>{n}\<close> of an integer\<close>
  | Repr rat        \<comment> \<open>\<^verbatim>\<open>{x}\<close> of a float\<close>
  | Fmt0f rat       \<comment> \<open>\<^verbatim>\<open>{x:.0f}\<close>\<close>
  | Fmt1f rat       \<comment> \<open>\<^verbatim>\<open>{x:.1f}\<close>\<close>
  | Fmt2f rat       \<comment> \<open>\<^verbatim>\<open>{x:.2f}\<close>\<close>

type_synonym fstring = "fpart list"

record Activity =
  time :: string
  name :: string
  location :: string
  description :: string
  estimated_cost :: rat
  duration_hours :: rat
  category :: string
  source :: string

record DayPlan =
  day_number :: int
  date :: string
  day_theme :: string
  activities :: "Activity list"
  day_total_cost :: rat
  day_notes :: string

record TravelPlan =
  plan_id :: string
  plan_name :: string
  theme :: string
  total_cost :: rat
  cost_breakdown :: "(string \<times> rat) list"
  daily_plans :: "DayPlan list"
  accommodation :: "(string \<times> pyval) list"
  transportation :: "(string \<times> pyval) list"
  key_highlights :: "string list"
  pace :: string

record ValidationIssue =
  severity :: string
  issue_category :: string
  issue_day_number :: "int option"
  problem :: fstring
  suggestion :: fstring
  affected_activities :: "string list"

record ValidationResult =
  result_plan_id :: string
  status :: string
  issues :: "ValidationIssue list"
  warnings :: "fstring list"
  score :: rat

text \<open>The user's requirements: a dictionary of which only numeric entries are read.\<close>

type_synonym requirements = "string \<rightharpoonup> rat"

section \<open>Thresholds\<close>

definition MAX_DAILY_ACTIVITIES :: nat where "MAX_DAILY_ACTIVITIES = 8"
definition MIN_DAILY_ACTIVITIES :: nat where "MIN_DAILY_ACTIVITIES = 3"
definition MAX_DAILY_COST_VARIANCE :: rat where "MAX_DAILY_COST_VARIANCE = 4 / 10"
definition MIN_TIME_BETWEEN_ACTIVITIES :: rat where "MIN_TIME_BETWEEN_ACTIVITIES = 1 / 2"
definition MAX_ACTIVITY_DURATION :: rat where "MAX_ACTIVITY_DURATION = 6"
definition BUDGET_TOLERANCE :: rat where "BUDGET_TOLERANCE = 1 / 10"

section \<open>Budget check\<close>

text \<open>
  \<^verbatim>\<open>_validate_budget\<close>: \<^verbatim>\<open>user_requirements.get('budget', 0)\<close>, then the over-budget branch,
  whose percentage divides by the budget, else the under-budget branch, whose message
  divides by the budget too.
\<close>

definition validate_budget :: "TravelPlan \<Rightarrow> requirements \<Rightarrow> py_error + ValidationIssue list" where
  "validate_budget plan user_requirements =
     (let user_budget = (case user_requirements ''budget'' of None \<Rightarrow> 0 | Some b \<Rightarrow> b);
          plan_cost = total_cost plan
      in if plan_cost > user_budget * (1 + BUDGET_TOLERANCE) then
           (let over_amount = plan_cost - user_budget
            in if user_budget = 0 then Inl ZeroDivisionError
               else (let over_percentage = (over_amount / user_budget) * 100
                     in Inr [\<lparr>severity = ''critical'', issue_category = ''budget'',
                              issue_day_number = None,
                              problem = [Lit ''Total cost $'', Fmt2f plan_cost,
                                         Lit '' exceeds budget $'', Fmt2f user_budget,
                                         Lit '' by $'', Fmt2f over_amount,
                                         Lit '' ('', Fmt1f over_percentage, Lit ''%)''],
                              suggestion = [Lit ''Reduce accommodation tier, eliminate expensive activities, or increase budget by $'',
                                            Fmt2f over_amount],
                              affected_activities = []\<rparr>]))
         else if plan_cost < user_budget * (6 / 10) then
           (if user_budget = 0 then Inl ZeroDivisionError
            else Inr [\<lparr>severity = ''low'', issue_category = ''budget'',
                        issue_day_number = None,
                        problem = [Lit ''Plan only uses '', Fmt1f ((plan_cost / user_budget) * 100),
                                   Lit ''% of available budget''],
                        suggestion = [Lit ''Consider upgrading accommodation or adding premium experiences''],
                        affected_activities = []\<rparr>])
         else Inr [])"

section \<open>Wall-clock times\<close>

text \<open>
  \<^verbatim>\<open>datetime.strptime(s, "%H:%M")\<close> compiles the format to the regular expression
  \<^verbatim>\<open>(?P<H>2[0-3]|[0-1]\d|\d):(?P<M>[0-5]\d|\d)\<close>, matches it at the start of \<open>s\<close> and raises
  \<^verbatim>\<open>ValueError\<close> when there is no match or when the match leaves text over. Strings are
  byte strings here, so \<^verbatim>\<open>\d\<close> is an ASCII digit.
\<close>

definition is_digit :: "char \<Rightarrow> bool" where
  "is_digit c = (48 \<le> (of_char c :: nat) \<and> (of_char c :: nat) \<le> 57)"

definition digit_val :: "char \<Rightarrow> nat" where
  "digit_val c = of_char c - 48"

text \<open>
  The ways group \<open>H\<close> matches at the start of a string, in the order the alternatives are
  tried, each with the text that follows it; the same for group \<open>M\<close>.
\<close>

definition re_H :: "string \<Rightarrow> (nat \<times> string) list" where
  "re_H s =
     (case s of
        [] \<Rightarrow> []
      | [c1] \<Rightarrow> (if is_digit c1 then [(digit_val c1, [])] else [])
      | c1 # c2 # r \<Rightarrow>
          (if c1 = CHR ''2'' \<and> is_digit c2 \<and> digit_val c2 \<le> 3
           then [(20 + digit_val c2, r)] else []) @
          (if is_digit c1 \<and> digit_val c1 \<le> 1 \<and> is_digit c2
           then [(10 * digit_val c1 + digit_val c2, r)] else []) @
          (if is_digit c1 then [(digit_val c1, c2 # r)] else []))"

definition re_M :: "string \<Rightarrow> (nat \<times> string) list" where
  "re_M s =
     (case s of
        [] \<Rightarrow> []
      | [c1] \<Rightarrow> (if is_digit c1 then [(digit_val c1, [])] else [])
      | c1 # c2 # r \<Rightarrow>
          (if is_digit c1 \<and> digit_val c1 \<le> 5 \<and> is_digit c2
           then [(10 * digit_val c1 + digit_val c2, r)] else []) @
          (if is_digit c1 then [(digit_val c1, c2 # r)] else []))"

text \<open>The first match of the whole expression, found by backtracking over the alternatives.\<close>

definition re_match :: "string \<Rightarrow> (nat \<times> nat \<times> string) option" where
  "re_match s =
     (case concat (map (\<lambda>(h, r). case r of
                                    [] \<Rightarrow> []
                                  | c # r' \<Rightarrow> if c = CHR '':'' then map (\<lambda>(m, r''). (h, m, r'')) (re_M r')
                                             else [])
                       (re_H s)) of
        [] \<Rightarrow> None
      | found # _ \<Rightarrow> Some found)"

text \<open>
  A \<^verbatim>\<open>datetime\<close> is the number of microseconds since the start of the day of ordinal 0
  (the day before 0001-01-01); a \<^verbatim>\<open>timedelta\<close> is a number of microseconds. The parsed
  time is on 1900-01-01, of ordinal 693596.
\<close>

type_synonym datetime = int
type_synonym timedelta = int

definition us_per_day :: int where "us_per_day = 86400000000"

definition strptime :: "string \<Rightarrow> py_error + datetime" where
  "strptime s =
     (case re_match s of
        None \<Rightarrow> Inl ValueError
      | Some (h, m, rest) \<Rightarrow>
          if rest \<noteq> [] then Inl ValueError
          else Inr (693596 * us_per_day + (int h * 60 + int m) * 60000000))"

text \<open>
  \<^verbatim>\<open>timedelta(hours=h)\<close> rounds to the nearest microsecond, a tie to the even one, and
  raises \<^verbatim>\<open>OverflowError\<close> beyond 999999999 days.
\<close>

definition round_half_even :: "rat \<Rightarrow> int" where
  "round_half_even x =
     (let f = \<lfloor>x\<rfloor>; d = x - of_int f
      in if d < 1 / 2 then f else if d > 1 / 2 then f + 1 else if even f then f else f + 1)"

definition timedelta_hours :: "rat \<Rightarrow> py_error + timedelta" where
  "timedelta_hours h =
     (let us = round_half_even (h * 3600000000)
      in if \<bar>us div us_per_day\<bar> > 999999999 then Inl OverflowError else Inr us)"

text \<open>\<^verbatim>\<open>datetime + timedelta\<close> raises \<^verbatim>\<open>OverflowError\<close> outside the years 1 to 9999.\<close>

definition datetime_add :: "datetime \<Rightarrow> timedelta \<Rightarrow> py_error + datetime" where
  "datetime_add t d =
     (let r = t + d; days = r div us_per_day
      in if 0 < days \<and> days \<le> 3652059 then Inr r else Inl OverflowError)"

text \<open>\<^verbatim>\<open>timedelta.total_seconds()\<close>.\<close>

definition total_seconds :: "timedelta \<Rightarrow> rat" where
  "total_seconds d = of_int d / 1000000"

section \<open>Timing check\<close>

text \<open>Lines 193 to 199 of \<^verbatim>\<open>_validate_timing\<close>: the buffer, in hours, between two activities.\<close>

definition buffer_time :: "Activity \<Rightarrow> Activity \<Rightarrow> py_error + rat" where
  "buffer_time current next_activity =
     (case strptime (time current) of Inl e \<Rightarrow> Inl e | Inr current_time \<Rightarrow>
     (case strptime (time next_activity) of Inl e \<Rightarrow> Inl e | Inr next_time \<Rightarrow>
     (case timedelta_hours (duration_hours current) of Inl e \<Rightarrow> Inl e | Inr d \<Rightarrow>
     (case datetime_add current_time d of Inl e \<Rightarrow> Inl e | Inr current_end \<Rightarrow>
      Inr (total_seconds (next_time - current_end) / 3600)))))"

text \<open>
  The body of the loop over consecutive activities (lines 190 to 220): the two tests on the
  buffer are two separate \<^verbatim>\<open>if\<close> statements.
\<close>

definition pair_issues :: "int \<Rightarrow> Activity \<Rightarrow> Activity \<Rightarrow> py_error + ValidationIssue list" where
  "pair_issues dn current next_activity =
     (case buffer_time current next_activity of Inl e \<Rightarrow> Inl e | Inr buffer \<Rightarrow>
      Inr ((if buffer < MIN_TIME_BETWEEN_ACTIVITIES then
              [\<lparr>severity = ''high'', issue_category = ''timing'', issue_day_number = Some dn,
                problem = [Lit ''Only '', Fmt0f (buffer * 60), Lit '' minutes between '',
                           Lit [CHR 0x27], Lit (name current), Lit [CHR 0x27], Lit '' and '',
                           Lit [CHR 0x27], Lit (name next_activity), Lit [CHR 0x27]],
                suggestion = [Lit ''Add at least 30 minutes buffer for travel/breaks''],
                affected_activities = [name current, name next_activity]\<rparr>]
            else []) @
           (if buffer < 0 then
              [\<lparr>severity = ''critical'', issue_category = ''timing'', issue_day_number = Some dn,
                problem = [Lit ''Activities overlap: '', Lit [CHR 0x27], Lit (name current),
                           Lit [CHR 0x27], Lit '' ends after '', Lit [CHR 0x27],
                           Lit (name next_activity), Lit [CHR 0x27], Lit '' starts''],
                suggestion = [Lit ''Reschedule one of these activities''],
                affected_activities = [name current, name next_activity]\<rparr>]
            else [])))"

text \<open>\<^verbatim>\<open>for i in range(len(activities) - 1)\<close>, with \<^verbatim>\<open>activities[i]\<close> and \<^verbatim>\<open>activities[i + 1]\<close>.\<close>

fun consecutive_issues :: "int \<Rightarrow> Activity list \<Rightarrow> py_error + ValidationIssue list" where
  "consecutive_issues dn (current # next_activity # rest) =
     (case pair_issues dn current next_activity of Inl e \<Rightarrow> Inl e | Inr found \<Rightarrow>
     (case consecutive_issues dn (next_activity # rest) of Inl e \<Rightarrow> Inl e | Inr later \<Rightarrow>
      Inr (found @ later)))"
| "consecutive_issues dn [a] = Inr []"
| "consecutive_issues dn [] = Inr []"

text \<open>\<^verbatim>\<open>for activity in activities\<close> (lines 223 to 232).\<close>

definition long_activity_issues :: "int \<Rightarrow> Activity list \<Rightarrow> ValidationIssue list" where
  "long_activity_issues dn acts =
     concat (map (\<lambda>activity.
        if duration_hours activity > MAX_ACTIVITY_DURATION then
          [\<lparr>severity = ''medium'', issue_category = ''timing'', issue_day_number = Some dn,
            problem = [Lit ''Activity '', Lit [CHR 0x27], Lit (name activity), Lit [CHR 0x27],
                       Lit '' is scheduled for '', Repr (duration_hours activity), Lit '' hours''],
            suggestion = [Lit ''Consider splitting into multiple shorter activities or reducing duration''],
            affected_activities = [name activity]\<rparr>]
        else []) acts)"

text \<open>The body of the loop over the days (lines 164 to 232).\<close>

definition timing_day :: "DayPlan \<Rightarrow> py_error + ValidationIssue list" where
  "timing_day day =
     (let acts = activities day; dn = day_number day;
          counted =
            (if length acts > MAX_DAILY_ACTIVITIES then
               [\<lparr>severity = ''high'', issue_category = ''timing'', issue_day_number = Some dn,
                 problem = [Lit ''Day '', IntV dn, Lit '' has '', IntV (int (length acts)),
                            Lit '' activities (max recommended: '',
                            IntV (int MAX_DAILY_ACTIVITIES), Lit '')''],
                 suggestion = [Lit ''Remove or combine some activities to avoid exhaustion''],
                 affected_activities = map name acts\<rparr>]
             else if length acts < MIN_DAILY_ACTIVITIES then
               [\<lparr>severity = ''low'', issue_category = ''timing'', issue_day_number = Some dn,
                 problem = [Lit ''Day '', IntV dn, Lit '' only has '', IntV (int (length acts)),
                            Lit '' activities''],
                 suggestion = [Lit ''Consider adding more experiences to make the most of your day''],
                 affected_activities = map name acts\<rparr>]
             else [])
      in case consecutive_issues dn acts of Inl e \<Rightarrow> Inl e | Inr paired \<Rightarrow>
         Inr (counted @ paired @ long_activity_issues dn acts))"

fun timing_days :: "DayPlan list \<Rightarrow> py_error + ValidationIssue list" where
  "timing_days [] = Inr []"
| "timing_days (day # days) =
     (case timing_day day of Inl e \<Rightarrow> Inl e | Inr found \<Rightarrow>
     (case timing_days days of Inl e \<Rightarrow> Inl e | Inr later \<Rightarrow> Inr (found @ later)))"

definition validate_timing :: "TravelPlan \<Rightarrow> py_error + ValidationIssue list" where
  "validate_timing plan = timing_days (daily_plans plan)"

section \<open>Daily balance check\<close>

text \<open>The body of the loop of \<^verbatim>\<open>_validate_daily_balance\<close>; nothing in it can raise.\<close>

definition balance_day :: "DayPlan \<Rightarrow> ValidationIssue list" where
  "balance_day day =
     (let total_hours = sum_list (map duration_hours (activities day));
          dn = day_number day;
          categories = map category (activities day)
      in (if total_hours > 12 then
            [\<lparr>severity = ''high'', issue_category = ''logistics'', issue_day_number = Some dn,
              problem = [Lit ''Day '', IntV dn, Lit '' has '', Fmt1f total_hours,
                         Lit '' hours of activities (over 12 hours)''],
              suggestion = [Lit ''Reduce number of activities or shorten durations to avoid exhaustion''],
              affected_activities = map name (activities day)\<rparr>]
          else if total_hours < 4 then
            [\<lparr>severity = ''low'', issue_category = ''logistics'', issue_day_number = Some dn,
              problem = [Lit ''Day '', IntV dn, Lit '' only has '', Fmt1f total_hours,
                         Lit '' hours of activities''],
              suggestion = [Lit ''Add more activities to make better use of the day''],
              affected_activities = map name (activities day)\<rparr>]
          else []) @
         (if count_list categories ''dining'' > 4 then
            [\<lparr>severity = ''low'', issue_category = ''logistics'', issue_day_number = Some dn,
              problem = [Lit ''Day '', IntV dn, Lit '' has too many dining activities''],
              suggestion = [Lit ''Balance with more sightseeing or cultural activities''],
              affected_activities =
                map name (filter (\<lambda>a. category a = ''dining'') (activities day))\<rparr>]
          else []))"

definition validate_daily_balance :: "TravelPlan \<Rightarrow> ValidationIssue list" where
  "validate_daily_balance plan = concat (map balance_day (daily_plans plan))"

section \<open>Feasibility check\<close>

text \<open>\<^verbatim>\<open>str.lower\<close> on ASCII letters, and the substring test \<^verbatim>\<open>p in s\<close>.\<close>

definition lower :: "string \<Rightarrow> string" where
  "lower s = map (\<lambda>c. if 65 \<le> (of_char c :: nat) \<and> (of_char c :: nat) \<le> 90
                       then char_of ((of_char c :: nat) + 32) else c) s"

fun starts_with :: "string \<Rightarrow> string \<Rightarrow> bool" where
  "starts_with [] s = True"
| "starts_with (p # ps) [] = False"
| "starts_with (p # ps) (c # cs) = (p = c \<and> starts_with ps cs)"

fun str_in :: "string \<Rightarrow> string \<Rightarrow> bool" where
  "str_in p [] = starts_with p []"
| "str_in p (c # cs) = (starts_with p (c # cs) \<or> str_in p cs)"

definition feasibility_activity :: "int \<Rightarrow> Activity \<Rightarrow> ValidationIssue list" where
  "feasibility_activity dn activity =
     (if estimated_cost activity < 0 then
        [\<lparr>severity = ''critical'', issue_category = ''budget'', issue_day_number = Some dn,
          problem = [Lit ''Activity '', Lit [CHR 0x27], Lit (name activity), Lit [CHR 0x27],
                     Lit '' has negative cost $'', Repr (estimated_cost activity)],
          suggestion = [Lit ''Correct the cost estimate''],
          affected_activities = [name activity]\<rparr>]
      else []) @
     (if estimated_cost activity = 0 \<and> str_in ''museum'' (lower (name activity)) then
        [\<lparr>severity = ''medium'', issue_category = ''budget'', issue_day_number = Some dn,
          problem = [Lit ''Activity '', Lit [CHR 0x27], Lit (name activity), Lit [CHR 0x27],
                     Lit '' listed as free but may require admission''],
          suggestion = [Lit ''Verify if entrance fee is required''],
          affected_activities = [name activity]\<rparr>]
      else [])"

definition validate_activity_feasibility :: "TravelPlan \<Rightarrow> ValidationIssue list" where
  "validate_activity_feasibility plan =
     concat (map (\<lambda>day. concat (map (feasibility_activity (day_number day)) (activities day)))
                 (daily_plans plan))"

section \<open>Cost distribution check\<close>

definition validate_cost_distribution :: "TravelPlan \<Rightarrow> ValidationIssue list" where
  "validate_cost_distribution plan =
     (if daily_plans plan = [] then []
      else
        (let daily_costs = map day_total_cost (daily_plans plan);
             avg_cost = sum_list daily_costs / of_nat (length daily_costs)
         in concat (map (\<lambda>day.
              if day_total_cost day > avg_cost * (1 + MAX_DAILY_COST_VARIANCE) then
                (let over_amount = day_total_cost day - avg_cost
                 in [\<lparr>severity = ''low'', issue_category = ''budget'',
                       issue_day_number = Some (day_number day),
                       problem = [Lit ''Day '', IntV (day_number day), Lit '' cost $'',
                                  Fmt2f (day_total_cost day), Lit '' is $'', Fmt2f over_amount,
                                  Lit '' above average''],
                       suggestion = [Lit ''Consider redistributing expensive activities across multiple days''],
                       affected_activities = []\<rparr>])
              else []) (daily_plans plan))))"

section \<open>Warnings\<close>

text \<open>\<^verbatim>\<open>d.get(k)\<close> of a dictionary is \<^verbatim>\<open>None\<close> for a missing key.\<close>

definition dict_get :: "(string \<times> pyval) list \<Rightarrow> string \<Rightarrow> pyval" where
  "dict_get d k = (case map_of d k of None \<Rightarrow> PNone | Some v \<Rightarrow> v)"

definition check_warnings :: "TravelPlan \<Rightarrow> fstring list" where
  "check_warnings plan =
     (let total_activities = sum_list (map (\<lambda>day. length (activities day)) (daily_plans plan));
          activities_with_sources =
            sum_list (map (\<lambda>day. length (filter (\<lambda>activity. source activity \<noteq> [])
                                                  (activities day)))
                          (daily_plans plan))
      in (if accommodation plan = [] \<or> \<not> truthy (dict_get (accommodation plan) ''name'') then
            [Lit ''No specific accommodation recommended - user should research options''] # []
          else []) @
         (if transportation plan = [] \<or> \<not> truthy (dict_get (transportation plan) ''daily'') then
            [Lit ''Transportation details are minimal - add more specific guidance''] # []
          else []) @
         (if (of_nat activities_with_sources :: rat) < of_nat total_activities * (1 / 2) then
            [Lit ''Only '', IntV (int activities_with_sources), Lit ''/'',
             IntV (int total_activities), Lit '' activities have source attribution''] # []
          else []))"

section \<open>Score, status and the orchestrator\<close>

definition severity_penalties :: "string \<rightharpoonup> rat" where
  "severity_penalties =
     [''critical'' \<mapsto> 20, ''high'' \<mapsto> 10, ''medium'' \<mapsto> 5, ''low'' \<mapsto> 2]"

definition calculate_quality_score :: "TravelPlan \<Rightarrow> ValidationIssue list \<Rightarrow> rat" where
  "calculate_quality_score plan found =
     max 0 (fold (\<lambda>issue base_score.
                    base_score - (case severity_penalties (severity issue) of
                                    None \<Rightarrow> 0 | Some p \<Rightarrow> p))
                 found 100)"

text \<open>
  \<^verbatim>\<open>_validate_single_plan\<close>: the five checks in the order of the source, an exception of a
  check ending the method; then the warnings, the score and the status.
\<close>

definition validate_single_plan :: "TravelPlan \<Rightarrow> requirements \<Rightarrow> py_error + ValidationResult" where
  "validate_single_plan plan user_requirements =
     (case validate_budget plan user_requirements of Inl e \<Rightarrow> Inl e | Inr budget_issues \<Rightarrow>
     (case validate_timing plan of Inl e \<Rightarrow> Inl e | Inr timing_issues \<Rightarrow>
        (let found = budget_issues @ timing_issues @ validate_daily_balance plan @
                     validate_activity_feasibility plan @ validate_cost_distribution plan;
             warned = check_warnings plan;
             score = calculate_quality_score plan found;
             critical_issues = filter (\<lambda>i. severity i = ''critical'') found;
             high_issues = filter (\<lambda>i. severity i = ''high'') found;
             status = (if critical_issues \<noteq> [] then ''NEEDS_REVISION''
                       else if high_issues \<noteq> [] then ''APPROVED_WITH_WARNINGS''
                       else ''APPROVED'')
         in Inr \<lparr>result_plan_id = plan_id plan, status = status, issues = found,
                 warnings = warned, score = score\<rparr>)))"

text \<open>\<^verbatim>\<open>validate_plans\<close>: the loop over the batch, with no exception handler.\<close>

fun validate_plans :: "TravelPlan list \<Rightarrow> requirements \<Rightarrow> py_error + ValidationResult list" where
  "validate_plans [] user_requirements = Inr []"
| "validate_plans (plan # plans) user_requirements =
     (case validate_single_plan plan user_requirements of Inl e \<Rightarrow> Inl e | Inr result \<Rightarrow>
     (case validate_plans plans user_requirements of Inl e \<Rightarrow> Inl e | Inr results \<Rightarrow>
        Inr (result # results)))"

section \<open>The specification's score and status\<close>

text \<open>
  The penalty table, the score formula and the status rule as the specification words them,
  to be compared with the methods above.
\<close>

definition penalty :: "string \<Rightarrow> rat" where
  "penalty s =
     (if s = ''critical'' then 20 else if s = ''high'' then 10
      else if s = ''medium'' then 5 else if s = ''low'' then 2 else 0)"

definition spec_score :: "string list \<Rightarrow> rat" where
  "spec_score severities = max 0 (100 - sum_list (map penalty severities))"

definition spec_status :: "string list \<Rightarrow> string" where
  "spec_status severities =
     (if ''critical'' \<in> set severities then ''NEEDS_REVISION''
      else if ''high'' \<in> set severities then ''APPROVED_WITH_WARNINGS''
      else ''APPROVED'')"

definition known_severity :: "string \<Rightarrow> bool" where
  "known_severity s = (s = ''critical'' \<or> s = ''high'' \<or> s = ''medium'' \<or> s = ''low'')"

section \<open>Sample plans\<close>

definition ex_activity :: "string \<Rightarrow> string \<Rightarrow> rat \<Rightarrow> Activity" where
  "ex_activity t n d =
     \<lparr>time = t, name = n, location = ''Paris'', description = ''sample'',
      estimated_cost = 25, duration_hours = d, category = ''sightseeing'', source = ''Test''\<rparr>"

definition ex_day :: "Activity list \<Rightarrow> DayPlan" where
  "ex_day acts =
     \<lparr>day_number = 1, date = ''2025-06-01'', day_theme = ''Highlights'', activities = acts,
      day_total_cost = 50, day_notes = []\<rparr>"

definition ex_plan_of :: "rat \<Rightarrow> DayPlan list \<Rightarrow> TravelPlan" where
  "ex_plan_of cost days =
     \<lparr>plan_id = ''A'', plan_name = ''Sample'', theme = ''classic'', total_cost = cost,
      cost_breakdown = [], daily_plans = days,
      accommodation = [(''name'', PStr ''Hotel'')],
      transportation = [(''daily'', PStr ''Metro'')],
      key_highlights = [], pace = ''moderate''\<rparr>"

text \<open>An activity at 09:00 for two hours followed by one at 10:30: they overlap.\<close>

definition ex_overlap_plan :: TravelPlan where
  "ex_overlap_plan =
     ex_plan_of 1000 [ex_day [ex_activity ''09:00'' ''Louvre'' 2, ex_activity ''10:30'' ''Lunch'' 1]]"

text \<open>The same day with the second time written as a generator may write it.\<close>

definition ex_unparsable_plan :: TravelPlan where
  "ex_unparsable_plan =
     ex_plan_of 1000 [ex_day [ex_activity ''09:00'' ''Louvre'' 2, ex_activity ''2:30 PM'' ''Lunch'' 1]]"

text \<open>Three well spaced activities: a plan with no issue but a light day.\<close>

definition ex_calm_plan :: TravelPlan where
  "ex_calm_plan =
     ex_plan_of 1000 [ex_day [ex_activity ''09:00'' ''Louvre'' 2, ex_activity ''12:00'' ''Lunch'' 1,
                              ex_activity ''14:00'' ''Walk'' 2]]"

text \<open>Days of eight and of nine half-hour activities, one every hour from 08:00.\<close>

definition ex_hours :: "string list" where
  "ex_hours = [''08:00'', ''09:00'', ''10:00'', ''11:00'', ''12:00'', ''13:00'', ''14:00'',
               ''15:00'', ''16:00'']"

definition ex_day8 :: DayPlan where
  "ex_day8 = ex_day (map (\<lambda>t. ex_activity t ''Stop'' (1 / 2)) (take 8 ex_hours))"

definition ex_day9 :: DayPlan where
  "ex_day9 = ex_day (map (\<lambda>t. ex_activity t ''Stop'' (1 / 2)) ex_hours)"

definition ex_requirements :: requirements where
  "ex_requirements = [''budget'' \<mapsto> 1000, ''duration_days'' \<mapsto> 1]"

section \<open>Reading the issue list\<close>

text \<open>
  What a test reads of an issue, and the two issues of the timing check that report the
  number of activities of a day, recognised by their fixed suggestion.
\<close>

definition issue_summary :: "ValidationIssue \<Rightarrow> string \<times> string \<times> int option \<times> string list" where
  "issue_summary i = (severity i, issue_category i, issue_day_number i, affected_activities i)"

definition count_based :: "ValidationIssue \<Rightarrow> bool" where
  "count_based i =
     (suggestion i = [Lit ''Remove or combine some activities to avoid exhaustion''] \<or>
      suggestion i = [Lit ''Consider adding more experiences to make the most of your day''])"

text \<open>The count rule as the specification words it, with the thresholds 8 and 3.\<close>

definition spec_count_issues :: "DayPlan \<Rightarrow> (string \<times> string \<times> int option \<times> string list) list" where
  "spec_count_issues day =
     (if length (activities day) > 8
      then [(''high'', ''timing'', Some (day_number day), map name (activities day))]
      else if length (activities day) < 3
      then [(''low'', ''timing'', Some (day_number day), map name (activities day))]
      else [])"

text \<open>
  A plan with the three things the warnings look at erased: the accommodation, the
  transportation and the source of every activity. Two plans that differ in these only
  have the same image.
\<close>

definition without_warning_fields :: "TravelPlan \<Rightarrow> TravelPlan" where
  "without_warning_fields plan =
     plan\<lparr>accommodation := [], transportation := [],
          daily_plans := map (\<lambda>day. day\<lparr>activities := map (\<lambda>a. a\<lparr>source := []\<rparr>) (activities day)\<rparr>)
                             (daily_plans plan)\<rparr>"

text \<open>What the warnings must leave alone: the score, the status and the issues of a result.\<close>

definition verdict :: "ValidationResult \<Rightarrow> rat \<times> string \<times> ValidationIssue list" where
  "verdict r = (score r, status r, issues r)"

text \<open>
  An activity as the data model describes it: a time that parses and a duration of at most
  a day.
\<close>

definition well_timed :: "Activity \<Rightarrow> bool" where
  "well_timed a =
     ((case strptime (time a) of Inl e \<Rightarrow> False | Inr t \<Rightarrow> True) \<and>
      0 \<le> duration_hours a \<and> duration_hours a \<le> 24)"

text \<open>
  Two plans of score 80: one with two buffers of a quarter of an hour, one with an activity
  of negative cost.
\<close>

definition ex_tight_plan :: TravelPlan where
  "ex_tight_plan =
     ex_plan_of 1000 [ex_day [ex_activity ''09:00'' ''Louvre'' 2, ex_activity ''11:15'' ''Lunch'' 1,
                              ex_activity ''12:30'' ''Walk'' 2]]"

definition ex_negative_plan :: TravelPlan where
  "ex_negative_plan =
     ex_plan_of 1000 [ex_day [ex_activity ''09:00'' ''Louvre'' 2,
                              (ex_activity ''12:00'' ''Lunch'' 1)\<lparr>estimated_cost := - 5\<rparr>,
                              ex_activity ''14:00'' ''Walk'' 2]]"

text \<open>A plan of two days, of eight and of nine activities.\<close>

definition ex_busy_plan :: TravelPlan where
  "ex_busy_plan = ex_plan_of 1000 [ex_day8, ex_day9]"

section \<open>Evaluating the sample plans\<close>

lemmas ex_defs =
  ex_overlap_plan_def ex_unparsable_plan_def ex_calm_plan_def ex_plan_of_def ex_day_def
  ex_activity_def ex_requirements_def ex_day8_def ex_day9_def ex_hours_def ex_busy_plan_def
  ex_tight_plan_def ex_negative_plan_def

lemmas time_defs =
  buffer_time_def strptime_def re_match_def re_H_def re_M_def is_digit_def digit_val_def
  timedelta_hours_def round_half_even_def datetime_add_def us_per_day_def total_seconds_def

lemmas check_defs =
  validate_timing_def timing_day_def pair_issues_def MIN_TIME_BETWEEN_ACTIVITIES_def
  MAX_DAILY_ACTIVITIES_def MIN_DAILY_ACTIVITIES_def long_activity_issues_def
  MAX_ACTIVITY_DURATION_def validate_budget_def BUDGET_TOLERANCE_def
  validate_daily_balance_def balance_day_def validate_activity_feasibility_def
  feasibility_activity_def validate_cost_distribution_def MAX_DAILY_COST_VARIANCE_def
  check_warnings_def dict_get_def lower_def validate_single_plan_def
  calculate_quality_score_def severity_penalties_def

lemma ex_overlap_buffer:
  "buffer_time (ex_activity ''09:00'' ''Louvre'' 2) (ex_activity ''10:30'' ''Lunch'' 1) = Inr (- (1 / 2))"
  by (simp add: ex_defs time_defs)

lemma ex_overlap_timing:
  "\<exists>found. validate_timing ex_overlap_plan = Inr found \<and>
     map severity found = [''low'', ''high'', ''critical'']"
  by (simp add: ex_defs time_defs check_defs)

lemma ex_overlap_validates:
  "\<exists>r. validate_single_plan ex_overlap_plan ex_requirements = Inr r \<and> score r = 66 \<and>
     status r = ''NEEDS_REVISION'' \<and>
     map severity (issues r) = [''low'', ''high'', ''critical'', ''low'']"
  by (simp add: ex_defs time_defs check_defs)

lemma ex_calm_validates:
  "\<exists>r. validate_single_plan ex_calm_plan ex_requirements = Inr r \<and> score r = 100 \<and>
     status r = ''APPROVED'' \<and> issues r = [] \<and> warnings r = []"
  by (simp add: ex_defs time_defs check_defs)

lemma ex_unparsable_raises:
  "validate_single_plan ex_unparsable_plan ex_requirements = Inl ValueError"
  by (simp add: ex_defs time_defs check_defs)

section \<open>When the validation returns\<close>

text \<open>
  A parsed time is a time of 1900-01-01, and the end of an activity of at most a day stays
  within the range of \<^verbatim>\<open>datetime\<close>: on a plan whose activities are all well timed the timing
  check returns, and with a budget other than zero so does the validation of the plan.
\<close>

lemma digit_val_le: "is_digit c \<Longrightarrow> digit_val c \<le> 9"
  unfolding is_digit_def digit_val_def by arith

lemma re_H_range:
  assumes "(h, r) \<in> set (re_H s)"
  shows "h \<le> 23"
proof (cases s)
  case Nil
  with assms show ?thesis by (simp add: re_H_def)
next
  case (Cons c1 s')
  show ?thesis
  proof (cases s')
    case Nil
    with assms Cons show ?thesis
      by (auto simp: re_H_def split: if_splits dest: digit_val_le)
  next
    case (Cons c2 s'')
    with assms \<open>s = c1 # s'\<close> digit_val_le [of c1] digit_val_le [of c2] show ?thesis
      by (auto simp: re_H_def split: if_splits)
  qed
qed

lemma re_M_range:
  assumes "(m, r) \<in> set (re_M s)"
  shows "m \<le> 59"
proof (cases s)
  case Nil
  with assms show ?thesis by (simp add: re_M_def)
next
  case (Cons c1 s')
  show ?thesis
  proof (cases s')
    case Nil
    with assms Cons show ?thesis
      by (auto simp: re_M_def split: if_splits dest: digit_val_le)
  next
    case (Cons c2 s'')
    with assms \<open>s = c1 # s'\<close> digit_val_le [of c1] digit_val_le [of c2] show ?thesis
      by (auto simp: re_M_def split: if_splits)
  qed
qed

lemma re_match_range:
  assumes "re_match s = Some (h, m, r)"
  shows "h \<le> 23 \<and> m \<le> 59"
proof -
  define after where "after = (\<lambda>(h :: nat, r :: string).
      case r of [] \<Rightarrow> []
      | c # r' \<Rightarrow> if c = CHR '':'' then map (\<lambda>(m :: nat, r'' :: string). (h, m, r'')) (re_M r') else [])"
  have m: "re_match s = (case concat (map after (re_H s)) of [] \<Rightarrow> None | found # _ \<Rightarrow> Some found)"
    by (simp add: re_match_def after_def)
  with assms obtain rest where "concat (map after (re_H s)) = (h, m, r) # rest"
    by (auto split: list.splits)
  then have "(h, m, r) \<in> set (concat (map after (re_H s)))"
    by simp
  then obtain h0 r0 where hr: "(h0, r0) \<in> set (re_H s)" and a: "(h, m, r) \<in> set (after (h0, r0))"
    by auto
  from a have "h = h0" and "\<exists>r'. (m, r) \<in> set (re_M r')"
    by (auto simp: after_def split: list.splits if_splits)
  with hr show ?thesis
    by (auto dest: re_H_range re_M_range)
qed

lemma strptime_range:
  assumes "strptime s = Inr t"
  shows "693596 * us_per_day \<le> t \<and> t < 693597 * us_per_day"
proof -
  from assms obtain h m r where "re_match s = Some (h, m, r)"
    and t: "t = 693596 * us_per_day + (int h * 60 + int m) * 60000000"
    by (auto simp: strptime_def split: option.splits if_splits)
  from re_match_range [OF this(1)] have "int h \<le> 23" "int m \<le> 59" by simp_all
  then show ?thesis
    unfolding t us_per_day_def by simp
qed

lemma round_half_even_bounds:
  "of_int (round_half_even x) \<le> x + 1 / 2 \<and> x - 1 / 2 \<le> of_int (round_half_even x)"
  unfolding round_half_even_def Let_def
  by (auto simp: not_less) linarith+


lemma timedelta_hours_day:
  assumes "0 \<le> h" and "h \<le> 24"
  shows "\<exists>d. timedelta_hours h = Inr d \<and> 0 \<le> d \<and> d \<le> us_per_day"
proof -
  let ?d = "round_half_even (h * 3600000000)"
  from round_half_even_bounds [of "h * 3600000000"] assms
  have "(of_int ?d :: rat) \<le> 86400000000 + 1 / 2" and "- (1 / 2) \<le> (of_int ?d :: rat)"
    by auto
  then have "(of_int ?d :: rat) < of_int 86400000001" and "(of_int (- 1) :: rat) < of_int ?d"
    by simp_all
  then have b: "?d < 86400000001" "- 1 < ?d"
    unfolding of_int_less_iff by simp_all
  then have "0 \<le> ?d" and "?d \<le> 86400000000"
    by simp_all
  from zdiv_mono1 [OF this(1), of 86400000000] zdiv_mono1 [OF this(2), of 86400000000]
  have "0 \<le> ?d div us_per_day \<and> ?d div us_per_day \<le> 1"
    unfolding us_per_day_def by simp
  with b show ?thesis
    by (simp add: timedelta_hours_def Let_def us_per_day_def)
qed

lemma buffer_time_returns:
  assumes "well_timed c" and "well_timed n"
  shows "\<exists>b. buffer_time c n = Inr b"
proof -
  from assms obtain tc tn where tc: "strptime (time c) = Inr tc" and tn: "strptime (time n) = Inr tn"
    by (auto simp: well_timed_def split: sum.splits)
  from assms(1) timedelta_hours_day [of "duration_hours c"]
  obtain d where d: "timedelta_hours (duration_hours c) = Inr d" "0 \<le> d" "d \<le> us_per_day"
    by (auto simp: well_timed_def)
  from strptime_range [OF tc] d(2,3)
  have "693596 * us_per_day \<le> tc + d" "tc + d < 693598 * us_per_day"
    by simp_all
  then have "59926694400000000 \<le> tc + d" and "tc + d \<le> 59926867199999999"
    unfolding us_per_day_def by simp_all
  from zdiv_mono1 [OF this(1), of 86400000000] zdiv_mono1 [OF this(2), of 86400000000]
  have "693596 \<le> (tc + d) div us_per_day \<and> (tc + d) div us_per_day < 693598"
    unfolding us_per_day_def by simp
  then have "datetime_add tc d = Inr (tc + d)"
    by (simp add: datetime_add_def Let_def)
  with tc tn d(1) have "buffer_time c n = Inr (total_seconds (tn - (tc + d)) / 3600)"
    by (simp add: buffer_time_def)
  then show ?thesis by (rule exI)
qed

lemma consecutive_issues_returns:
  "\<forall>a \<in> set acts. well_timed a \<Longrightarrow> \<exists>found. consecutive_issues dn acts = Inr found"
proof (induction dn acts rule: consecutive_issues.induct)
  case (1 dn current next_activity rest)
  from "1.prems" buffer_time_returns [of current next_activity]
  obtain b where "buffer_time current next_activity = Inr b" by auto
  then obtain q where q: "pair_issues dn current next_activity = Inr q"
    by (simp add: pair_issues_def)
  from "1.IH" [OF q] "1.prems"
  obtain later where "consecutive_issues dn (next_activity # rest) = Inr later" by auto
  with q show ?case by simp
qed simp_all

lemma timing_days_returns:
  "\<forall>day \<in> set days. \<forall>a \<in> set (activities day). well_timed a \<Longrightarrow>
   \<exists>found. timing_days days = Inr found"
proof (induction days)
  case Nil
  then show ?case by simp
next
  case (Cons d days)
  from Cons.prems consecutive_issues_returns [of "activities d" "day_number d"]
  obtain paired where "consecutive_issues (day_number d) (activities d) = Inr paired" by auto
  then obtain ds where ds: "timing_day d = Inr ds"
    by (simp add: timing_day_def Let_def)
  from Cons.IH Cons.prems obtain later where "timing_days days = Inr later" by auto
  with ds show ?case by simp
qed

lemma validation_returns:
  assumes "\<forall>day \<in> set (daily_plans plan). \<forall>a \<in> set (activities day). well_timed a"
    and "reqs ''budget'' = Some budget" and "budget \<noteq> 0"
  shows "\<exists>r. validate_single_plan plan reqs = Inr r"
proof -
  from timing_days_returns [OF assms(1)] obtain t where t: "validate_timing plan = Inr t"
    by (auto simp: validate_timing_def)
  from assms(2,3) have "\<exists>b. validate_budget plan reqs = Inr b"
    by (simp add: validate_budget_def Let_def)
  then obtain b where "validate_budget plan reqs = Inr b" ..
  with t show ?thesis
    by (simp add: validate_single_plan_def Let_def)
qed

section \<open>Score and status\<close>

lemma fold_minus_sum: "fold (\<lambda>x (b::rat). b - g x) xs a = a - sum_list (map g xs)"
  by (induction xs arbitrary: a) simp_all

lemma severity_penalties_penalty:
  "(case severity_penalties s of None \<Rightarrow> 0 | Some p \<Rightarrow> p) = penalty s"
  by (simp add: severity_penalties_def penalty_def)

lemma calculate_quality_score_spec:
  "calculate_quality_score plan found = spec_score (map severity found)"
  by (simp add: calculate_quality_score_def spec_score_def fold_minus_sum
      severity_penalties_penalty comp_def)

lemma penalty_nonneg: "0 \<le> penalty s"
  by (simp add: penalty_def)

lemma sum_penalty_nonneg: "0 \<le> sum_list (map penalty ss)"
  by (induction ss) (simp_all add: penalty_nonneg)

lemma spec_score_bounds: "0 \<le> spec_score ss \<and> spec_score ss \<le> 100"
  using sum_penalty_nonneg [of ss] by (simp add: spec_score_def)

lemma single_plan_result:
  assumes "validate_single_plan plan reqs = Inr r"
  shows "\<exists>b t. validate_budget plan reqs = Inr b \<and> validate_timing plan = Inr t \<and>
           issues r = b @ t @ validate_daily_balance plan @ validate_activity_feasibility plan @
                      validate_cost_distribution plan \<and>
           warnings r = check_warnings plan \<and>
           score r = calculate_quality_score plan (issues r) \<and>
           status r = (if filter (\<lambda>i. severity i = ''critical'') (issues r) \<noteq> [] then ''NEEDS_REVISION''
                       else if filter (\<lambda>i. severity i = ''high'') (issues r) \<noteq> [] then ''APPROVED_WITH_WARNINGS''
                       else ''APPROVED'') \<and>
           result_plan_id r = plan_id plan"
  using assms
  by (auto simp: validate_single_plan_def Let_def split: sum.splits)

lemma filter_nonempty_severity:
  "(filter (\<lambda>i. severity i = s) found \<noteq> []) = (s \<in> set (map severity found))"
  by (induction found) auto

text \<open>Every issue of the five checks has one of the four severities of the penalty table.\<close>

lemma validate_budget_known:
  "validate_budget plan reqs = Inr b \<Longrightarrow> i \<in> set b \<Longrightarrow> known_severity (severity i)"
  by (auto simp: validate_budget_def Let_def known_severity_def split: if_splits)

lemma pair_issues_known:
  "pair_issues dn c n = Inr q \<Longrightarrow> i \<in> set q \<Longrightarrow> known_severity (severity i)"
  by (auto simp: pair_issues_def known_severity_def split: sum.splits if_splits)

lemma consecutive_issues_known:
  "consecutive_issues dn acts = Inr ps \<Longrightarrow> i \<in> set ps \<Longrightarrow> known_severity (severity i)"
proof (induction dn acts arbitrary: ps rule: consecutive_issues.induct)
  case (1 dn current next_activity rest)
  from "1.prems"(1) obtain q later where
    q: "pair_issues dn current next_activity = Inr q"
    and l: "consecutive_issues dn (next_activity # rest) = Inr later" and ps: "ps = q @ later"
    by (auto split: sum.splits)
  from "1.prems"(2) ps have "i \<in> set q \<or> i \<in> set later" by simp
  then show ?case
    using pair_issues_known [OF q] "1.IH" [OF q l] by blast
qed simp_all

lemma long_activity_issues_known:
  "i \<in> set (long_activity_issues dn acts) \<Longrightarrow> known_severity (severity i)"
  by (auto simp: long_activity_issues_def known_severity_def split: if_splits)

lemma timing_day_known:
  assumes "timing_day day = Inr ds" and "i \<in> set ds"
  shows "known_severity (severity i)"
proof -
  from assms(1) obtain counted paired where
    p: "consecutive_issues (day_number day) (activities day) = Inr paired"
    and ds: "ds = counted @ paired @ long_activity_issues (day_number day) (activities day)"
    and c: "\<forall>i \<in> set counted. known_severity (severity i)"
    by (auto simp: timing_day_def Let_def known_severity_def split: sum.splits if_splits)
  from assms(2) ds have "i \<in> set counted \<or> i \<in> set paired \<or>
      i \<in> set (long_activity_issues (day_number day) (activities day))"
    by simp
  then show ?thesis
    using c consecutive_issues_known [OF p] long_activity_issues_known by blast
qed

lemma timing_days_known:
  "timing_days days = Inr found \<Longrightarrow> i \<in> set found \<Longrightarrow> known_severity (severity i)"
proof (induction days arbitrary: found)
  case Nil
  then show ?case by simp
next
  case (Cons d days)
  from Cons.prems(1) obtain ds later where
    d: "timing_day d = Inr ds" and l: "timing_days days = Inr later" and f: "found = ds @ later"
    by (auto split: sum.splits)
  from Cons.prems(2) f have "i \<in> set ds \<or> i \<in> set later" by simp
  then show ?case
    using timing_day_known [OF d] Cons.IH [OF l] by blast
qed

lemma validate_daily_balance_known:
  "i \<in> set (validate_daily_balance plan) \<Longrightarrow> known_severity (severity i)"
  by (auto simp: validate_daily_balance_def balance_day_def Let_def known_severity_def
      split: if_splits)

lemma validate_activity_feasibility_known:
  "i \<in> set (validate_activity_feasibility plan) \<Longrightarrow> known_severity (severity i)"
  by (auto simp: validate_activity_feasibility_def feasibility_activity_def known_severity_def
      split: if_splits)

lemma validate_cost_distribution_known:
  "i \<in> set (validate_cost_distribution plan) \<Longrightarrow> known_severity (severity i)"
  by (auto simp: validate_cost_distribution_def Let_def known_severity_def split: if_splits)

lemma issues_known:
  assumes "validate_single_plan plan reqs = Inr r" and "i \<in> set (issues r)"
  shows "known_severity (severity i)"
proof -
  from single_plan_result [OF assms(1)] obtain b t where
    b: "validate_budget plan reqs = Inr b" and t: "validate_timing plan = Inr t" and
    i: "issues r = b @ t @ validate_daily_balance plan @ validate_activity_feasibility plan @
                      validate_cost_distribution plan"
    by blast
  from assms(2) have "i \<in> set b \<or> i \<in> set t \<or> i \<in> set (validate_daily_balance plan) \<or>
      i \<in> set (validate_activity_feasibility plan) \<or> i \<in> set (validate_cost_distribution plan)"
    unfolding i by simp
  then show ?thesis
    using validate_budget_known [OF b] timing_days_known [OF t [unfolded validate_timing_def]]
      validate_daily_balance_known validate_activity_feasibility_known
      validate_cost_distribution_known
    by blast
qed

text \<open>
  Claim C4: the score a validation returns is \<open>max 0 (100 - \<Sum> penalty)\<close>, the penalty being
  20 for critical, 10 for high, 5 for medium and 2 for low, every issue having one of these
  four severities; and so the score lies between 0 and 100.
\<close>

theorem score_formula:
  assumes "validate_single_plan plan reqs = Inr r"
  shows "score r = max 0 (100 - sum_list (map (\<lambda>i. penalty (severity i)) (issues r))) \<and>
         (\<forall>i \<in> set (issues r). known_severity (severity i)) \<and>
         0 \<le> score r \<and> score r \<le> 100"
proof -
  from single_plan_result [OF assms]
  have "score r = spec_score (map severity (issues r))"
    by (auto simp: calculate_quality_score_spec)
  then show ?thesis
    using spec_score_bounds [of "map severity (issues r)"] issues_known [OF assms]
    by (simp add: spec_score_def comp_def)
qed

theorem score_formula_witness:
  "\<exists>r. validate_single_plan ex_overlap_plan ex_requirements = Inr r \<and>
     score r = max 0 (100 - sum_list (map (\<lambda>i. penalty (severity i)) (issues r))) \<and>
     score r = 66 \<and> 0 \<le> score r \<and> score r \<le> 100"
proof -
  from ex_overlap_validates obtain r where
    r: "validate_single_plan ex_overlap_plan ex_requirements = Inr r" "score r = 66"
    by blast
  from score_formula [OF r(1)] r show ?thesis by blast
qed

text \<open>
  Claim C5: the status a validation returns is read off the severities of its issues:
  NEEDS_REVISION when one is critical, else APPROVED_WITH_WARNINGS when one is high, else
  APPROVED. It is a function of the list of severities, the score taking no part.
\<close>

theorem status_from_severities:
  assumes "validate_single_plan plan reqs = Inr r"
  shows "status r = spec_status (map severity (issues r))"
proof -
  from single_plan_result [OF assms]
  have "status r = (if filter (\<lambda>i. severity i = ''critical'') (issues r) \<noteq> [] then ''NEEDS_REVISION''
                       else if filter (\<lambda>i. severity i = ''high'') (issues r) \<noteq> [] then ''APPROVED_WITH_WARNINGS''
                       else ''APPROVED'')"
    by blast
  then show ?thesis
    unfolding filter_nonempty_severity spec_status_def by simp
qed

theorem status_from_severities_witness:
  "\<exists>r. validate_single_plan ex_overlap_plan ex_requirements = Inr r \<and>
     status r = spec_status (map severity (issues r)) \<and> status r = ''NEEDS_REVISION''"
proof -
  from ex_overlap_validates obtain r where
    r: "validate_single_plan ex_overlap_plan ex_requirements = Inr r"
       "status r = ''NEEDS_REVISION''"
    by blast
  from status_from_severities [OF r(1)] r show ?thesis by blast
qed

text \<open>Two validations with the same score and different statuses.\<close>

lemma same_score_other_status:
  "\<exists>r r'. validate_single_plan ex_tight_plan ex_requirements = Inr r \<and>
     validate_single_plan ex_negative_plan ex_requirements = Inr r' \<and>
     score r = 80 \<and> score r' = 80 \<and>
     status r = ''APPROVED_WITH_WARNINGS'' \<and> status r' = ''NEEDS_REVISION''"
  by (simp add: ex_defs time_defs check_defs)

section \<open>Budget check\<close>



text \<open>
  Claim C10: a requirements dictionary with no budget gives the budget 0; with a budget of 0
  and a positive total cost the over-budget branch divides by zero, and the validation of
  the plan ends with that error instead of a result.
\<close>

theorem zero_budget_division:
  assumes "user_requirements ''budget'' = None \<or> user_requirements ''budget'' = Some 0"
    and "total_cost plan > 0"
  shows "validate_budget plan user_requirements = Inl ZeroDivisionError \<and>
         validate_single_plan plan user_requirements = Inl ZeroDivisionError"
  using assms
  by (auto simp: validate_single_plan_def validate_budget_def BUDGET_TOLERANCE_def Let_def)

theorem zero_budget_division_witness:
  "(Map.empty :: requirements) ''budget'' = None \<and> total_cost (ex_plan_of 500 []) > 0 \<and>
   validate_budget (ex_plan_of 500 []) Map.empty = Inl ZeroDivisionError \<and>
   validate_single_plan (ex_plan_of 500 []) Map.empty = Inl ZeroDivisionError"
proof -
  have c: "total_cost (ex_plan_of 500 []) > 0"
    by (simp add: ex_plan_of_def)
  from zero_budget_division [of Map.empty, OF _ c] c show ?thesis
    by simp
qed

section \<open>Timing check\<close>

lemma pair_issues_overlap:
  assumes "buffer_time current next_activity = Inr b" and "b < 0"
  shows "\<exists>h c. pair_issues dn current next_activity = Inr [h, c] \<and>
           severity h = ''high'' \<and> issue_category h = ''timing'' \<and>
           issue_day_number h = Some dn \<and>
           affected_activities h = [name current, name next_activity] \<and>
           severity c = ''critical'' \<and> issue_category c = ''timing'' \<and>
           issue_day_number c = Some dn \<and>
           affected_activities c = [name current, name next_activity]"
  using assms by (simp add: pair_issues_def MIN_TIME_BETWEEN_ACTIVITIES_def)

lemma consecutive_issues_pair:
  assumes "consecutive_issues dn (pre @ c # n # post) = Inr ps"
  shows "\<exists>x y q. pair_issues dn c n = Inr q \<and> ps = x @ q @ y"
  using assms
proof (induction pre arbitrary: ps)
  case Nil
  then show ?case
    by (auto split: sum.splits intro: exI [of _ "[]"])
next
  case (Cons p pre)
  obtain z zs where zs: "pre @ c # n # post = z # zs"
    by (cases pre) auto
  from Cons.prems obtain q' later where
    later: "consecutive_issues dn (pre @ c # n # post) = Inr later" and ps: "ps = q' @ later"
    by (auto simp: zs split: sum.splits)
  from Cons.IH [OF later] obtain x y q where "pair_issues dn c n = Inr q" "later = x @ q @ y"
    by blast
  then have "pair_issues dn c n = Inr q \<and> ps = (q' @ x) @ q @ y"
    using ps by simp
  then show ?case by blast
qed

lemma timing_day_pair:
  assumes "timing_day day = Inr ds" and "activities day = pre @ c # n # post"
  shows "\<exists>x y q. pair_issues (day_number day) c n = Inr q \<and> ds = x @ q @ y"
proof -
  from assms(1) obtain counted paired where
    p: "consecutive_issues (day_number day) (activities day) = Inr paired"
    and ds: "ds = counted @ paired @ long_activity_issues (day_number day) (activities day)"
    by (auto simp: timing_day_def Let_def split: sum.splits)
  from consecutive_issues_pair [OF p [unfolded assms(2)]]
  obtain x y q where "pair_issues (day_number day) c n = Inr q" "paired = x @ q @ y"
    by blast
  then have "pair_issues (day_number day) c n = Inr q \<and>
      ds = (counted @ x) @ q @ (y @ long_activity_issues (day_number day) (activities day))"
    using ds by simp
  then show ?thesis by blast
qed

lemma timing_days_day:
  assumes "timing_days days = Inr found" and "day \<in> set days"
  shows "\<exists>x y ds. timing_day day = Inr ds \<and> found = x @ ds @ y"
  using assms
proof (induction days arbitrary: found)
  case Nil
  then show ?case by simp
next
  case (Cons d days)
  from Cons.prems(1) obtain ds later where
    d: "timing_day d = Inr ds" and l: "timing_days days = Inr later" and f: "found = ds @ later"
    by (auto split: sum.splits)
  show ?case
  proof (cases "day = d")
    case True
    with d f have "timing_day day = Inr ds \<and> found = [] @ ds @ later" by simp
    then show ?thesis by blast
  next
    case False
    with Cons.prems(2) have "day \<in> set days" by simp
    from Cons.IH [OF l this] obtain x y ds' where "timing_day day = Inr ds'" "later = x @ ds' @ y"
      by blast
    with f have "timing_day day = Inr ds' \<and> found = (ds @ x) @ ds' @ y" by simp
    then show ?thesis by blast
  qed
qed

text \<open>
  Claim C1 says that a pair of consecutive activities with a negative buffer gets one
  critical/timing issue and no high/timing issue. On the sample day (09:00 for two hours,
  then 10:30) the buffer is minus half an hour and the timing check returns a low issue for
  the two activities of the day, then a high and a critical issue for the pair.
\<close>

theorem overlap_counterexample:
  "buffer_time (ex_activity ''09:00'' ''Louvre'' 2) (ex_activity ''10:30'' ''Lunch'' 1) = Inr (- (1 / 2)) \<and>
   map_sum id (map issue_summary) (validate_timing ex_overlap_plan) =
   Inr [(''low'', ''timing'', Some 1, [''Louvre'', ''Lunch'']),
        (''high'', ''timing'', Some 1, [''Louvre'', ''Lunch'']),
        (''critical'', ''timing'', Some 1, [''Louvre'', ''Lunch''])]"
  by (simp add: ex_defs time_defs check_defs issue_summary_def)

text \<open>
  Claim C1, amended: when the timing check returns, a pair of consecutive activities of a
  day whose buffer is negative contributes two adjacent issues to the list, first a
  high/timing issue (buffer too small), then a critical/timing issue (overlap), both for
  that day and those two activities; neither takes precedence.
\<close>

theorem overlap_raises_both:
  assumes "validate_timing plan = Inr found"
    and "day \<in> set (daily_plans plan)"
    and "activities day = pre @ current # next_activity # post"
    and "buffer_time current next_activity = Inr b" and "b < 0"
  shows "\<exists>h c before after.
           pair_issues (day_number day) current next_activity = Inr [h, c] \<and>
           found = before @ [h, c] @ after \<and>
           severity h = ''high'' \<and> issue_category h = ''timing'' \<and>
           issue_day_number h = Some (day_number day) \<and>
           affected_activities h = [name current, name next_activity] \<and>
           severity c = ''critical'' \<and> issue_category c = ''timing'' \<and>
           issue_day_number c = Some (day_number day) \<and>
           affected_activities c = [name current, name next_activity]"
proof -
  from timing_days_day [OF assms(1) [unfolded validate_timing_def] assms(2)]
  obtain x y ds where ds: "timing_day day = Inr ds" and f: "found = x @ ds @ y"
    by blast
  from timing_day_pair [OF ds assms(3)]
  obtain x' y' q where q: "pair_issues (day_number day) current next_activity = Inr q"
    and d: "ds = x' @ q @ y'"
    by blast
  from pair_issues_overlap [OF assms(4,5), of "day_number day"]
  obtain h c where hc: "pair_issues (day_number day) current next_activity = Inr [h, c]"
    and props: "severity h = ''high''" "issue_category h = ''timing''"
      "issue_day_number h = Some (day_number day)"
      "affected_activities h = [name current, name next_activity]"
      "severity c = ''critical''" "issue_category c = ''timing''"
      "issue_day_number c = Some (day_number day)"
      "affected_activities c = [name current, name next_activity]"
    by blast
  from q hc have "q = [h, c]" by simp
  with f d have "found = (x @ x') @ [h, c] @ (y' @ y)" by simp
  with hc props show ?thesis by blast
qed

theorem overlap_raises_both_witness:
  "\<exists>found h c before after.
     validate_timing ex_overlap_plan = Inr found \<and>
     buffer_time (ex_activity ''09:00'' ''Louvre'' 2) (ex_activity ''10:30'' ''Lunch'' 1) = Inr (- (1 / 2)) \<and>
     found = before @ [h, c] @ after \<and>
     severity h = ''high'' \<and> affected_activities h = [''Louvre'', ''Lunch''] \<and>
     severity c = ''critical'' \<and> affected_activities c = [''Louvre'', ''Lunch'']"
proof -
  let ?a = "ex_activity ''09:00'' ''Louvre'' 2" and ?b = "ex_activity ''10:30'' ''Lunch'' 1"
  from ex_overlap_timing obtain found where f: "validate_timing ex_overlap_plan = Inr found"
    by blast
  have d: "ex_day [?a, ?b] \<in> set (daily_plans ex_overlap_plan)"
    by (simp add: ex_overlap_plan_def ex_plan_of_def)
  have a: "activities (ex_day [?a, ?b]) = [] @ ?a # ?b # []"
    by (simp add: ex_day_def)
  have n: "- (1 / 2) < (0 :: rat)" by simp
  from overlap_raises_both [OF f d a ex_overlap_buffer n] f ex_overlap_buffer
  show ?thesis
    by (auto simp: ex_activity_def)
qed

lemma pair_issues_not_count_based:
  "pair_issues dn c n = Inr q \<Longrightarrow> filter count_based q = []"
  by (auto simp: pair_issues_def count_based_def split: sum.splits)

lemma consecutive_issues_not_count_based:
  "consecutive_issues dn acts = Inr ps \<Longrightarrow> filter count_based ps = []"
proof (induction dn acts arbitrary: ps rule: consecutive_issues.induct)
  case (1 dn current next_activity rest)
  then show ?case
    by (auto split: sum.splits dest: pair_issues_not_count_based)
qed simp_all

lemma long_activity_issues_not_count_based:
  "filter count_based (long_activity_issues dn acts) = []"
  by (induction acts) (simp_all add: long_activity_issues_def count_based_def)

lemma timing_day_count_based:
  assumes "timing_day day = Inr ds"
  shows "map issue_summary (filter count_based ds) = spec_count_issues day"
proof -
  from assms obtain paired where
    p: "consecutive_issues (day_number day) (activities day) = Inr paired"
    by (auto simp: timing_day_def Let_def split: sum.splits)
  from assms p show ?thesis
    by (auto simp: timing_day_def Let_def spec_count_issues_def issue_summary_def
        count_based_def MAX_DAILY_ACTIVITIES_def MIN_DAILY_ACTIVITIES_def
        consecutive_issues_not_count_based long_activity_issues_not_count_based)
qed

lemma timing_days_count_based:
  "timing_days days = Inr found \<Longrightarrow>
   map issue_summary (filter count_based found) = concat (map spec_count_issues days)"
proof (induction days arbitrary: found)
  case Nil
  then show ?case by simp
next
  case (Cons d days)
  from Cons.prems obtain ds later where
    d: "timing_day d = Inr ds" and l: "timing_days days = Inr later" and f: "found = ds @ later"
    by (auto split: sum.splits)
  show ?case
    using Cons.IH [OF l] timing_day_count_based [OF d] by (simp add: f)
qed

lemma ex_busy_timing:
  "\<exists>found. validate_timing ex_busy_plan = Inr found \<and> length found = 1"
  by (simp add: ex_defs time_defs check_defs)

text \<open>
  Claim C7: when the timing check returns, the issues in its list that report a number of
  activities are, day by day and in the order of the days, one high/timing issue listing
  all the activities of the day when there are more than 8, one low/timing issue when
  there are fewer than 3, and none otherwise. A day of 8 activities gives none and a day of
  9 gives one high/timing issue.
\<close>

theorem activity_count_issues:
  assumes "validate_timing plan = Inr found"
  shows "map issue_summary (filter count_based found) =
           concat (map spec_count_issues (daily_plans plan))"
  using assms unfolding validate_timing_def by (rule timing_days_count_based)

theorem activity_count_issues_witness:
  "\<exists>found. validate_timing ex_busy_plan = Inr found \<and>
     length (activities ex_day8) = 8 \<and> length (activities ex_day9) = 9 \<and>
     spec_count_issues ex_day8 = [] \<and>
     map issue_summary (filter count_based found) =
       [(''high'', ''timing'', Some 1, replicate 9 ''Stop'')]"
proof -
  from ex_busy_timing obtain found where f: "validate_timing ex_busy_plan = Inr found"
    by blast
  have "concat (map spec_count_issues (daily_plans ex_busy_plan)) =
      [(''high'', ''timing'', Some 1, replicate 9 ''Stop'')]"
    and "length (activities ex_day8) = 8" and "length (activities ex_day9) = 9"
    and "spec_count_issues ex_day8 = []"
    by (simp_all add: ex_defs spec_count_issues_def numeral_eq_Suc)
  with activity_count_issues [OF f] f show ?thesis
    by auto
qed

lemma strptime_error: "strptime s = Inl e \<Longrightarrow> e = ValueError"
  by (auto simp: strptime_def split: option.splits if_splits)

lemma buffer_time_unparsable:
  "strptime (time c) = Inl ValueError \<or> strptime (time n) = Inl ValueError \<Longrightarrow>
   buffer_time c n = Inl ValueError"
  by (auto simp: buffer_time_def split: sum.splits dest: strptime_error)

lemma pair_issues_unparsable:
  "strptime (time c) = Inl ValueError \<or> strptime (time n) = Inl ValueError \<Longrightarrow>
   pair_issues dn c n = Inl ValueError"
  by (simp add: pair_issues_def buffer_time_unparsable)

lemma consecutive_issues_unparsable:
  assumes "a \<in> set acts" and "2 \<le> length acts" and "strptime (time a) = Inl ValueError"
  shows "\<exists>e. consecutive_issues dn acts = Inl e"
  using assms
proof (induction dn acts rule: consecutive_issues.induct)
  case (1 dn current next_activity rest)
  show ?case
  proof (cases "pair_issues dn current next_activity")
    case (Inl e)
    then show ?thesis by simp
  next
    case (Inr q)
    with pair_issues_unparsable [of current next_activity dn] "1.prems"(3)
    have ne: "a \<noteq> current" "a \<noteq> next_activity" by auto
    with "1.prems"(1) have mem: "a \<in> set (next_activity # rest)" and "a \<in> set rest" by auto
    then have "2 \<le> length (next_activity # rest)" by (cases rest) auto
    from "1.IH" [OF Inr mem this "1.prems"(3)] show ?thesis
      by (auto simp: Inr)
  qed
qed simp_all

lemma timing_days_raises:
  assumes "day \<in> set days" and "timing_day day = Inl e"
  shows "\<exists>e'. timing_days days = Inl e'"
  using assms by (induction days) (auto split: sum.splits)

lemma consecutive_issues_short: "length acts \<le> 1 \<Longrightarrow> consecutive_issues dn acts = Inr []"
  by (induction dn acts rule: consecutive_issues.induct) simp_all

lemma timing_days_short:
  "\<forall>day \<in> set days. length (activities day) \<le> 1 \<Longrightarrow> \<exists>found. timing_days days = Inr found"
  by (induction days) (auto simp: timing_day_def Let_def consecutive_issues_short)

text \<open>
  Claim C3 says that an activity whose time is not a wall-clock time gets a medium/timing
  issue and that no exception leaves the validation of the plan. On the sample day whose
  second activity is at \<open>2:30 PM\<close> the time does not parse, and both the timing check and the
  validation of the plan end with \<^verbatim>\<open>ValueError\<close>.
\<close>

theorem unparsable_time_counterexample:
  "strptime ''2:30 PM'' = Inl ValueError \<and>
   validate_timing ex_unparsable_plan = Inl ValueError \<and>
   validate_single_plan ex_unparsable_plan ex_requirements = Inl ValueError"
  by (simp add: ex_defs time_defs check_defs)

text \<open>
  Claim C3, amended: when an activity whose time does not parse belongs to a day of at
  least two activities, the timing check raises and so does the validation of the plan;
  no issue about the time is recorded. On a plan whose days have at most one activity each
  no time is parsed and the timing check returns.
\<close>

theorem unparsable_time_raises:
  "(day \<in> set (daily_plans plan) \<and> a \<in> set (activities day) \<and>
    2 \<le> length (activities day) \<and> strptime (time a) = Inl ValueError \<longrightarrow>
      (\<exists>e. validate_timing plan = Inl e) \<and>
      (\<exists>e. validate_single_plan plan user_requirements = Inl e)) \<and>
   ((\<forall>day \<in> set (daily_plans plan). length (activities day) \<le> 1) \<longrightarrow>
      (\<exists>found. validate_timing plan = Inr found))"
proof (intro conjI impI)
  assume h: "day \<in> set (daily_plans plan) \<and> a \<in> set (activities day) \<and>
    2 \<le> length (activities day) \<and> strptime (time a) = Inl ValueError"
  then have "a \<in> set (activities day)" "2 \<le> length (activities day)"
    "strptime (time a) = Inl ValueError" and d: "day \<in> set (daily_plans plan)"
    by simp_all
  from consecutive_issues_unparsable [OF this(1,2,3)]
  obtain e where "consecutive_issues (day_number day) (activities day) = Inl e" by blast
  then have "timing_day day = Inl e"
    by (simp add: timing_day_def Let_def)
  from timing_days_raises [OF d this]
  show t: "\<exists>e. validate_timing plan = Inl e"
    by (simp add: validate_timing_def)
  then show "\<exists>e. validate_single_plan plan user_requirements = Inl e"
    by (auto simp: validate_single_plan_def split: sum.splits)
next
  assume "\<forall>day \<in> set (daily_plans plan). length (activities day) \<le> 1"
  then show "\<exists>found. validate_timing plan = Inr found"
    unfolding validate_timing_def by (rule timing_days_short)
qed

theorem unparsable_time_raises_witness:
  "strptime (time (ex_activity ''2:30 PM'' ''Lunch'' 1)) = Inl ValueError \<and>
   (\<exists>e. validate_timing ex_unparsable_plan = Inl e) \<and>
   (\<exists>e. validate_single_plan ex_unparsable_plan ex_requirements = Inl e) \<and>
   (\<exists>found. validate_timing (ex_plan_of 1000 [ex_day [ex_activity ''2:30 PM'' ''Lunch'' 1]]) = Inr found)"
proof -
  let ?a = "ex_activity ''2:30 PM'' ''Lunch'' 1"
  let ?day = "ex_day [ex_activity ''09:00'' ''Louvre'' 2, ?a]"
  have s: "strptime (time ?a) = Inl ValueError"
    by (simp add: ex_defs time_defs)
  have m: "?day \<in> set (daily_plans ex_unparsable_plan) \<and> ?a \<in> set (activities ?day) \<and>
      2 \<le> length (activities ?day)"
    by (simp add: ex_unparsable_plan_def ex_plan_of_def ex_day_def)
  have l: "\<forall>day \<in> set (daily_plans (ex_plan_of 1000 [ex_day [?a]])). length (activities day) \<le> 1"
    by (simp add: ex_plan_of_def ex_day_def)
  from unparsable_time_raises
    [where plan = ex_unparsable_plan and day = ?day and a = ?a
       and user_requirements = ex_requirements]
    s m
  have r: "(\<exists>e. validate_timing ex_unparsable_plan = Inl e) \<and>
      (\<exists>e. validate_single_plan ex_unparsable_plan ex_requirements = Inl e)"
    by blast
  from unparsable_time_raises [where plan = "ex_plan_of 1000 [ex_day [?a]]"] l
  have "\<exists>found. validate_timing (ex_plan_of 1000 [ex_day [?a]]) = Inr found"
    by blast
  with s r show ?thesis by blast
qed

section \<open>The orchestrator\<close>

text \<open>
  Claim C8: the issues of a result are the issues of the budget check, then of the timing
  check, of the daily balance check, of the feasibility check and of the cost distribution
  check, in that order; the warnings are computed apart and are the warnings of the result.
  The budget check runs first: when it raises, its exception is the one that leaves.
\<close>

theorem checks_in_fixed_order:
  "(validate_single_plan plan reqs = Inr r \<longrightarrow>
      (\<exists>b t. validate_budget plan reqs = Inr b \<and> validate_timing plan = Inr t \<and>
         issues r = b @ t @ validate_daily_balance plan @ validate_activity_feasibility plan @
                    validate_cost_distribution plan \<and>
         warnings r = check_warnings plan)) \<and>
   (validate_budget plan reqs = Inl e \<longrightarrow> validate_single_plan plan reqs = Inl e)"
proof (intro conjI impI)
  assume "validate_single_plan plan reqs = Inr r"
  from single_plan_result [OF this]
  show "\<exists>b t. validate_budget plan reqs = Inr b \<and> validate_timing plan = Inr t \<and>
         issues r = b @ t @ validate_daily_balance plan @ validate_activity_feasibility plan @
                    validate_cost_distribution plan \<and>
         warnings r = check_warnings plan"
    by blast
next
  assume "validate_budget plan reqs = Inl e"
  then show "validate_single_plan plan reqs = Inl e"
    by (simp add: validate_single_plan_def)
qed

theorem checks_in_fixed_order_witness:
  "(\<exists>r b t. validate_single_plan ex_overlap_plan ex_requirements = Inr r \<and>
      validate_budget ex_overlap_plan ex_requirements = Inr b \<and>
      validate_timing ex_overlap_plan = Inr t \<and>
      issues r = b @ t @ validate_daily_balance ex_overlap_plan @
                 validate_activity_feasibility ex_overlap_plan @
                 validate_cost_distribution ex_overlap_plan \<and>
      map severity (issues r) = [''low'', ''high'', ''critical'', ''low''] \<and>
      warnings r = check_warnings ex_overlap_plan) \<and>
   validate_budget (ex_plan_of 500 [ex_day [ex_activity ''2:30 PM'' ''Lunch'' 1,
                                           ex_activity ''2:30 PM'' ''Lunch'' 1]]) Map.empty =
     Inl ZeroDivisionError \<and>
   validate_single_plan (ex_plan_of 500 [ex_day [ex_activity ''2:30 PM'' ''Lunch'' 1,
                                                ex_activity ''2:30 PM'' ''Lunch'' 1]]) Map.empty =
     Inl ZeroDivisionError"
proof -
  let ?p = "ex_plan_of 500 [ex_day [ex_activity ''2:30 PM'' ''Lunch'' 1,
                                    ex_activity ''2:30 PM'' ''Lunch'' 1]]"
  from ex_overlap_validates obtain r where
    r: "validate_single_plan ex_overlap_plan ex_requirements = Inr r"
    and sev: "map severity (issues r) = [''low'', ''high'', ''critical'', ''low'']"
    by (elim exE conjE)
  have z: "validate_budget ?p Map.empty = Inl ZeroDivisionError"
    by (simp add: validate_budget_def BUDGET_TOLERANCE_def ex_plan_of_def)
  have ordered: "validate_single_plan ex_overlap_plan ex_requirements = Inr r \<longrightarrow>
      (\<exists>b t. validate_budget ex_overlap_plan ex_requirements = Inr b \<and>
         validate_timing ex_overlap_plan = Inr t \<and>
         issues r = b @ t @ validate_daily_balance ex_overlap_plan @
                    validate_activity_feasibility ex_overlap_plan @
                    validate_cost_distribution ex_overlap_plan \<and>
         warnings r = check_warnings ex_overlap_plan)"
    using checks_in_fixed_order [where plan = ex_overlap_plan and reqs = ex_requirements and r = r]
    by (rule conjunct1)
  have first: "validate_budget ?p Map.empty = Inl ZeroDivisionError \<longrightarrow>
      validate_single_plan ?p Map.empty = Inl ZeroDivisionError"
    using checks_in_fixed_order [where plan = ?p and reqs = Map.empty and e = ZeroDivisionError]
    by (rule conjunct2)
  from ordered r obtain b t where
    "validate_budget ex_overlap_plan ex_requirements = Inr b"
    "validate_timing ex_overlap_plan = Inr t"
    "issues r = b @ t @ validate_daily_balance ex_overlap_plan @
                validate_activity_feasibility ex_overlap_plan @
                validate_cost_distribution ex_overlap_plan"
    "warnings r = check_warnings ex_overlap_plan"
    by (elim impE exE conjE)
  with r sev have "\<exists>r b t. validate_single_plan ex_overlap_plan ex_requirements = Inr r \<and>
      validate_budget ex_overlap_plan ex_requirements = Inr b \<and>
      validate_timing ex_overlap_plan = Inr t \<and>
      issues r = b @ t @ validate_daily_balance ex_overlap_plan @
                 validate_activity_feasibility ex_overlap_plan @
                 validate_cost_distribution ex_overlap_plan \<and>
      map severity (issues r) = [''low'', ''high'', ''critical'', ''low''] \<and>
      warnings r = check_warnings ex_overlap_plan"
    by (intro exI conjI)
  moreover from first z have "validate_single_plan ?p Map.empty = Inl ZeroDivisionError"
    by (rule mp)
  ultimately show ?thesis using z by (intro conjI)
qed

lemma validate_plans_results:
  "(validate_plans plans reqs = Inr rs) =
   list_all2 (\<lambda>p r. validate_single_plan p reqs = Inr r) plans rs"
proof (induction plans arbitrary: rs)
  case Nil
  then show ?case by auto
next
  case (Cons p plans)
  have step: "(validate_plans (p # plans) reqs = Inr rs) =
      (\<exists>r rs'. rs = r # rs' \<and> validate_single_plan p reqs = Inr r \<and>
                validate_plans plans reqs = Inr rs')"
    by (auto split: sum.splits)
  show ?case
    unfolding step list_all2_Cons1 Cons.IH by blast
qed

lemma validate_plans_first_failure:
  assumes "list_all2 (\<lambda>p r. validate_single_plan p reqs = Inr r) good rs"
    and "validate_single_plan bad reqs = Inl e"
  shows "validate_plans (good @ bad # rest) reqs = Inl e"
  using assms
  by (induction good rs rule: list_all2_induct) (auto split: sum.splits)

text \<open>
  Claim C2 says that a plan whose validation fails gets a result of its own (NEEDS_REVISION,
  score 0, one critical issue) and that the other plans of the batch are validated all the
  same. A batch of three plans whose second has a time that does not parse returns no
  result at all: the \<^verbatim>\<open>ValueError\<close> of the second plan leaves \<^verbatim>\<open>validate_plans\<close>.
\<close>

theorem batch_counterexample:
  "validate_plans [ex_calm_plan, ex_unparsable_plan, ex_calm_plan] ex_requirements =
   Inl ValueError"
  using ex_calm_validates ex_unparsable_raises by auto

text \<open>
  Claim C2, amended: a batch returns a list of results exactly when every plan of the batch
  validates without an exception, and the list then holds the result of each plan, in the
  order of the batch; when a plan fails after plans that validate, its exception leaves
  \<^verbatim>\<open>validate_plans\<close> and no result is returned, whatever plans follow.
\<close>

theorem batch_stops_at_first_failure:
  "((validate_plans plans reqs = Inr rs) =
      list_all2 (\<lambda>p r. validate_single_plan p reqs = Inr r) plans rs) \<and>
   (list_all2 (\<lambda>p r. validate_single_plan p reqs = Inr r) good rs' \<and>
    validate_single_plan bad reqs = Inl e \<longrightarrow>
      validate_plans (good @ bad # rest) reqs = Inl e)"
  using validate_plans_results [of plans reqs rs]
    validate_plans_first_failure [of reqs good rs' bad e rest]
  by blast

theorem batch_stops_at_first_failure_witness:
  "\<exists>r. validate_single_plan ex_calm_plan ex_requirements = Inr r \<and>
     validate_single_plan ex_unparsable_plan ex_requirements = Inl ValueError \<and>
     validate_plans ([ex_calm_plan] @ ex_unparsable_plan # [ex_calm_plan]) ex_requirements =
       Inl ValueError \<and>
     validate_plans [ex_calm_plan, ex_calm_plan] ex_requirements = Inr [r, r]"
proof -
  from ex_calm_validates obtain r where
    r: "validate_single_plan ex_calm_plan ex_requirements = Inr r"
    by blast
  then have g: "list_all2 (\<lambda>p r. validate_single_plan p ex_requirements = Inr r) [ex_calm_plan] [r]"
    and g2: "list_all2 (\<lambda>p r. validate_single_plan p ex_requirements = Inr r)
               [ex_calm_plan, ex_calm_plan] [r, r]"
    by simp_all
  from batch_stops_at_first_failure
    [where reqs = ex_requirements and good = "[ex_calm_plan]" and rs' = "[r]"
       and bad = ex_unparsable_plan and e = ValueError and rest = "[ex_calm_plan]"
       and plans = "[ex_calm_plan, ex_calm_plan]" and rs = "[r, r]"]
    g g2 ex_unparsable_raises r
  show ?thesis by blast
qed

section \<open>Warnings\<close>

lemma pair_issues_source:
  "pair_issues dn (c\<lparr>source := s\<rparr>) (n\<lparr>source := s'\<rparr>) = pair_issues dn c n"
  by (simp add: pair_issues_def buffer_time_def cong: sum.case_cong if_cong)

lemma consecutive_issues_source:
  "consecutive_issues dn (map (\<lambda>a. a\<lparr>source := []\<rparr>) acts) = consecutive_issues dn acts"
  by (induction dn acts rule: consecutive_issues.induct)
    (auto simp: pair_issues_source split: sum.splits)

lemma long_activity_issues_source:
  "long_activity_issues dn (map (\<lambda>a. a\<lparr>source := []\<rparr>) acts) = long_activity_issues dn acts"
  by (simp add: long_activity_issues_def comp_def cong: if_cong)

lemma timing_day_source:
  "timing_day (day\<lparr>activities := map (\<lambda>a. a\<lparr>source := []\<rparr>) (activities day)\<rparr>) = timing_day day"
  by (simp add: timing_day_def Let_def consecutive_issues_source long_activity_issues_source
      comp_def cong: if_cong sum.case_cong)

lemma timing_days_source:
  "timing_days (map (\<lambda>day. day\<lparr>activities := map (\<lambda>a. a\<lparr>source := []\<rparr>) (activities day)\<rparr>) days) =
   timing_days days"
  by (induction days) (auto simp: timing_day_source split: sum.splits)

lemma validate_timing_warning_fields:
  "validate_timing (without_warning_fields plan) = validate_timing plan"
  by (simp add: validate_timing_def without_warning_fields_def timing_days_source)

lemma validate_budget_warning_fields:
  "validate_budget (without_warning_fields plan) reqs = validate_budget plan reqs"
  by (simp add: validate_budget_def Let_def without_warning_fields_def cong: if_cong)

lemma balance_day_source:
  "balance_day (day\<lparr>activities := map (\<lambda>a. a\<lparr>source := []\<rparr>) (activities day)\<rparr>) = balance_day day"
  by (simp add: balance_day_def Let_def comp_def filter_map cong: if_cong)

lemma validate_daily_balance_warning_fields:
  "validate_daily_balance (without_warning_fields plan) = validate_daily_balance plan"
  by (simp add: validate_daily_balance_def without_warning_fields_def comp_def balance_day_source)

lemma feasibility_activity_source:
  "feasibility_activity dn (a\<lparr>source := s\<rparr>) = feasibility_activity dn a"
  by (simp add: feasibility_activity_def cong: if_cong)

lemma validate_activity_feasibility_warning_fields:
  "validate_activity_feasibility (without_warning_fields plan) = validate_activity_feasibility plan"
  by (simp add: validate_activity_feasibility_def without_warning_fields_def comp_def
      feasibility_activity_source)

lemma validate_cost_distribution_warning_fields:
  "validate_cost_distribution (without_warning_fields plan) = validate_cost_distribution plan"
  by (simp add: validate_cost_distribution_def Let_def without_warning_fields_def comp_def
      cong: if_cong)

lemma verdict_warning_fields:
  "map_sum id verdict (validate_single_plan (without_warning_fields plan) reqs) =
   map_sum id verdict (validate_single_plan plan reqs)"
  by (simp add: validate_single_plan_def verdict_def Let_def calculate_quality_score_def
      validate_timing_warning_fields validate_budget_warning_fields
      validate_daily_balance_warning_fields validate_activity_feasibility_warning_fields
      validate_cost_distribution_warning_fields split: sum.splits)

lemma ex_calm_no_hotel:
  "\<exists>r. validate_single_plan (ex_calm_plan\<lparr>accommodation := []\<rparr>) ex_requirements = Inr r \<and>
     warnings r = [Lit ''No specific accommodation recommended - user should research options''] # []"
  by (simp add: ex_defs time_defs check_defs)

text \<open>
  Claim C9: two plans that differ only in what the warnings look at (the accommodation, the
  transportation, the sources of the activities) get, with the same requirements, the same
  score, the same status and the same issues, or fail with the same exception.
\<close>

theorem warnings_do_not_count:
  assumes "without_warning_fields p = without_warning_fields q"
  shows "map_sum id verdict (validate_single_plan p reqs) =
         map_sum id verdict (validate_single_plan q reqs)"
  using verdict_warning_fields [of p reqs] verdict_warning_fields [of q reqs] assms
  by simp

theorem warnings_do_not_count_witness:
  "without_warning_fields ex_calm_plan = without_warning_fields (ex_calm_plan\<lparr>accommodation := []\<rparr>) \<and>
   (\<exists>r r'. validate_single_plan ex_calm_plan ex_requirements = Inr r \<and>
      validate_single_plan (ex_calm_plan\<lparr>accommodation := []\<rparr>) ex_requirements = Inr r' \<and>
      warnings r \<noteq> warnings r' \<and> score r = score r' \<and> status r = status r')"
proof -
  have h: "without_warning_fields ex_calm_plan =
      without_warning_fields (ex_calm_plan\<lparr>accommodation := []\<rparr>)"
    by (simp add: without_warning_fields_def)
  from ex_calm_validates obtain r where
    r: "validate_single_plan ex_calm_plan ex_requirements = Inr r" "warnings r = []"
    by blast
  from ex_calm_no_hotel obtain r' where
    r': "validate_single_plan (ex_calm_plan\<lparr>accommodation := []\<rparr>) ex_requirements = Inr r'"
      "warnings r' = [Lit ''No specific accommodation recommended - user should research options''] # []"
    by blast
  from warnings_do_not_count [OF h, of ex_requirements] r r'
  have "score r = score r' \<and> status r = status r'"
    by (simp add: verdict_def)
  with h r r' show ?thesis by auto
qed

end
